theory Spec2Isabelle
  imports Complex_Main "HOL-Library.Word" "HOL-Library.Sublist"
begin

section \<open>JavaScript values\<close>

text \<open>
  A JavaScript string is a sequence of UTF-16 code units. String literals of the
  source are written \<open>js ''...''\<close>.
\<close>

type_synonym code_unit = "16 word"
type_synonym js_string = "code_unit list"

definition js :: "string \<Rightarrow> js_string" where
  "js s = map (\<lambda>c. of_nat (of_char c)) s"

text \<open>
  The values a request body or a configuration file can hold (what \<open>JSON.parse\<close>
  yields), and \<open>undefined\<close>, the value of a property that is not there. A number is
  the double it denotes.
\<close>

datatype js_number = Finite rat | PlusInfinity | MinusInfinity | NaN

datatype jsval =
    JUndefined
  | JNull
  | JBool bool
  | JNum js_number
  | JStr js_string
  | JArr "jsval list"
  | JObj "(js_string \<times> jsval) list"

text \<open>\<open>ToBoolean\<close>: what \<open>!v\<close>, \<open>v || w\<close> and \<open>if (v)\<close> test.\<close>

fun truthy :: "jsval \<Rightarrow> bool" where
  "truthy JUndefined = False"
| "truthy JNull = False"
| "truthy (JBool b) = b"
| "truthy (JNum n) = (n \<noteq> Finite 0 \<and> n \<noteq> NaN)"
| "truthy (JStr s) = (s \<noteq> [])"
| "truthy (JArr _) = True"
| "truthy (JObj _) = True"

text \<open>
  An optional string field (\<open>field?: string\<close>): \<open>None\<close> is \<open>undefined\<close>. Such a
  field is truthy when it is set and not the empty string.
\<close>

fun truthy_str :: "js_string option \<Rightarrow> bool" where
  "truthy_str None = False"
| "truthy_str (Some s) = (s \<noteq> [])"

text \<open>
  The code units \<open>String.prototype.trim\<close> strips and the regular expression class
  \<open>\s\<close> matches: ECMAScript's WhiteSpace and LineTerminator.
\<close>

definition is_ws :: "code_unit \<Rightarrow> bool" where
  "is_ws c \<longleftrightarrow>
     c = 0x9 \<or> c = 0xA \<or> c = 0xB \<or> c = 0xC \<or> c = 0xD \<or> c = 0x20 \<or> c = 0xA0 \<or>
     c = 0x1680 \<or> (0x2000 \<le> c \<and> c \<le> 0x200A) \<or> c = 0x2028 \<or> c = 0x2029 \<or>
     c = 0x202F \<or> c = 0x205F \<or> c = 0x3000 \<or> c = 0xFEFF"

definition trim :: "js_string \<Rightarrow> js_string" where
  "trim s = rev (dropWhile is_ws (rev (dropWhile is_ws s)))"

section \<open>Trigger model\<close>

text \<open>
  \<open>HookTrigger\<close> is a union of four string literals; at run time a trigger is a
  string. The four are the ones \<open>normalizeHookTrigger\<close> and
  \<open>formatHookTriggerLabel\<close> enumerate.
\<close>

definition hook_triggers :: "js_string list" where
  "hook_triggers =
     [js ''pre-implementation'', js ''post-implementation'', js ''custom'', js ''on-demand'']"

text \<open>
  \<open>normalizeHookTrigger(value: unknown)\<close>: \<open>===\<close> against a string literal holds for
  the string with the same code units only.
\<close>

definition normalizeHookTrigger :: "jsval \<Rightarrow> js_string" where
  "normalizeHookTrigger v =
     (case v of
        JStr s \<Rightarrow>
          if s = js ''pre-implementation'' \<or> s = js ''post-implementation'' \<or>
             s = js ''custom'' \<or> s = js ''on-demand''
          then s
          else js ''post-implementation''
      | _ \<Rightarrow> js ''post-implementation'')"

text \<open>
  Modelled from the spec: the \<open>HookStep\<close> type, declared in \<open>server/types\<close>, which is
  not among the sources. The fields are the ones this file reads (\<open>id\<close>, \<open>name\<close>,
  \<open>command\<close>, \<open>kind\<close>, \<open>prompt\<close>, \<open>trigger\<close>, \<open>enabled\<close>) and the spec's data model
  lists; a field the code reads with \<open>?.\<close>, \<open>!\<close> or against \<open>false\<close> may be unset.
  Further fields (condition, conditionTitle) live in the record's extension.
\<close>

record HookStep =
  step_id :: js_string
  step_name :: js_string
  step_command :: "js_string option"
  step_kind :: "js_string option"
  step_prompt :: "js_string option"
  step_trigger :: "js_string option"
  step_enabled :: "bool option"

definition matchesTrigger :: "'a HookStep_scheme \<Rightarrow> js_string \<Rightarrow> bool" where
  "matchesTrigger step trigger =
     (if trigger = js ''post-implementation''
      then step_trigger step = Some (js ''post-implementation'') \<or>
           \<not> truthy_str (step_trigger step)
      else step_trigger step = Some trigger)"

text \<open>\<open>step.command?.trim()\<close> is \<open>undefined\<close> when the command is unset.\<close>

definition isRunnableCommandStep :: "'a HookStep_scheme \<Rightarrow> bool" where
  "isRunnableCommandStep step =
     (let isPrompt =
            (step_kind step = Some (js ''prompt'') \<or>
             (truthy_str (step_prompt step) \<and>
              \<not> truthy_str (map_option trim (step_command step))))
      in \<not> isPrompt \<and> truthy_str (map_option trim (step_command step)))"

text \<open>
  Letter case, for stating how normalization treats a mis-cased trigger: two strings
  differ only in letter case when they are different and agree once every ASCII
  capital is replaced by its small letter.
\<close>

definition lower_unit :: "code_unit \<Rightarrow> code_unit" where
  "lower_unit c = (if 0x41 \<le> c \<and> c \<le> 0x5A then c + 0x20 else c)"

definition differs_only_in_case :: "js_string \<Rightarrow> js_string \<Rightarrow> bool" where
  "differs_only_in_case s t \<longleftrightarrow> s \<noteq> t \<and> map lower_unit s = map lower_unit t"

section \<open>Skill descriptors\<close>

text \<open>
  \<open>parseSkillFrontmatter\<close> applies the regular expression
  \<open>/^---\s*\n([\s\S]*?)\n---/\<close> and reads \<open>key: value\<close> lines of the captured
  group. The expression has no flag, so \<open>^\<close> is the start of the content and the match
  is tried there only.
\<close>

definition LF :: code_unit where "LF = 0xA"
definition colon :: code_unit where "colon = 0x3A"

text \<open>The closing delimiter of the expression, \<open>\n---\<close>.\<close>

definition closing :: js_string where
  "closing = LF # js ''---''"

text \<open>
  \<open>([\s\S]*?)\n---\<close> on the text after the opening line: the group is lazy, so it
  is the shortest prefix that \<open>\n---\<close> follows; \<open>None\<close> when \<open>\n---\<close> does not occur.
\<close>

fun lazy_body :: "js_string \<Rightarrow> js_string option" where
  "lazy_body [] = None"
| "lazy_body (c # cs) =
     (if prefix closing (c # cs) then Some [] else map_option ((#) c) (lazy_body cs))"

text \<open>
  \<open>\s*\n\<close> is greedy and backtracks: with \<open>s\<close> the text after the leading \<open>---\<close>,
  \<open>\s*\<close> first takes all \<open>n\<close> whitespace units at the start of \<open>s\<close>, then \<open>n - 1\<close>,
  down to none, and the first length \<open>k\<close> after which a line feed stands and the rest
  of the expression matches gives the match. \<open>after_open k s\<close> is the rest of the
  expression tried after \<open>k\<close> units.
\<close>

definition after_open :: "nat \<Rightarrow> js_string \<Rightarrow> js_string option" where
  "after_open k s = (if k < length s \<and> s ! k = LF then lazy_body (drop (Suc k) s) else None)"

fun greedy_open :: "nat \<Rightarrow> js_string \<Rightarrow> js_string option" where
  "greedy_open 0 s = after_open 0 s"
| "greedy_open (Suc k) s =
     (case after_open (Suc k) s of Some b \<Rightarrow> Some b | None \<Rightarrow> greedy_open k s)"

definition frontmatter_match :: "js_string \<Rightarrow> js_string option" where
  "frontmatter_match content =
     (if prefix (js ''---'') content
      then let rest = drop 3 content in greedy_open (length (takeWhile is_ws rest)) rest
      else None)"

text \<open>\<open>match[1].split("\n")\<close>: never empty, the last line is what follows the last line feed.\<close>

fun split_lines :: "js_string \<Rightarrow> js_string list" where
  "split_lines [] = [[]]"
| "split_lines (c # cs) =
     (if c = LF then [] # split_lines cs
      else (case split_lines cs of [] \<Rightarrow> [[c]] | l # ls \<Rightarrow> (c # l) # ls))"

text \<open>\<open>line.indexOf(":")\<close>; \<open>None\<close> is \<open>-1\<close>.\<close>

definition indexOf :: "js_string \<Rightarrow> code_unit \<Rightarrow> nat option" where
  "indexOf s c = (if c \<in> set s then Some (length (takeWhile (\<lambda>x. x \<noteq> c) s)) else None)"

text \<open>
  One turn of the loop: a line with no colon, or whose first unit is the colon, is
  skipped (\<open>colonIdx <= 0\<close>); otherwise the trimmed key and value.
\<close>

definition key_value :: "js_string \<Rightarrow> (js_string \<times> js_string) option" where
  "key_value line =
     (case indexOf line colon of
        None \<Rightarrow> None
      | Some colonIdx \<Rightarrow>
          if colonIdx = 0 then None
          else Some (trim (take colonIdx line), trim (drop (Suc colonIdx) line)))"

record Frontmatter =
  fm_name :: js_string
  fm_description :: js_string

fun scan_lines :: "js_string list \<Rightarrow> Frontmatter \<Rightarrow> Frontmatter" where
  "scan_lines [] fm = fm"
| "scan_lines (line # rest) fm =
     (case key_value line of
        None \<Rightarrow> scan_lines rest fm
      | Some (key, v) \<Rightarrow>
          let fm1 = (if key = js ''name'' then fm\<lparr>fm_name := v\<rparr> else fm);
              fm2 = (if key = js ''description'' then fm1\<lparr>fm_description := v\<rparr> else fm1)
          in scan_lines rest fm2)"

definition parseSkillFrontmatter :: "js_string \<Rightarrow> Frontmatter" where
  "parseSkillFrontmatter content =
     (case frontmatter_match content of
        None \<Rightarrow> \<lparr>fm_name = [], fm_description = []\<rparr>
      | Some block \<Rightarrow> scan_lines (split_lines block) \<lparr>fm_name = [], fm_description = []\<rparr>)"

text \<open>
  For stating what the parser extracts: the value of the last line of \<open>lines\<close> whose key
  is \<open>key\<close>, the empty string when there is none.
\<close>

definition field_value :: "js_string \<Rightarrow> js_string list \<Rightarrow> js_string" where
  "field_value key lines =
     (case filter (\<lambda>kv. fst kv = key) (List.map_filter key_value lines) of
        [] \<Rightarrow> []
      | kv # kvs \<Rightarrow> snd (last (kv # kvs)))"

text \<open>
  The shape the specification gives a descriptor: the first line is three hyphens and
  nothing else, and so is a later line.
\<close>

definition three_hyphen_delimited :: "js_string \<Rightarrow> bool" where
  "three_hyphen_delimited content \<longleftrightarrow>
     (case split_lines content of
        [] \<Rightarrow> False
      | first # rest \<Rightarrow> first = js ''---'' \<and> js ''---'' \<in> set rest)"

section \<open>Skill registry\<close>

text \<open>
  The file system the listing reads, as the three calls of \<open>fs\<close> it makes. A path is
  the list of its components (\<open>path.join\<close> of a directory and names; what
  \<open>readdirSync\<close> returns has no separator and is neither \<open>.\<close> nor \<open>..\<close>).
  \<open>existsSync\<close> never throws; \<open>readdirSync\<close> and \<open>readFileSync\<close> throw on a path
  they cannot read, \<open>None\<close> here. A \<open>Dirent\<close> has a name and \<open>isDirectory()\<close>.
\<close>

type_synonym path = "js_string list"

record Dirent =
  ent_name :: js_string
  ent_isDirectory :: bool

record FileSystem =
  existsSync :: "path \<Rightarrow> bool"
  readdirSync :: "path \<Rightarrow> Dirent list option"
  readFileSync :: "path \<Rightarrow> js_string option"

record AvailableSkill =
  sk_name :: js_string
  sk_displayName :: js_string
  sk_description :: js_string

text \<open>
  GET /api/hooks/skills/available. The loop over the entries, \<open>available\<close> the array
  it pushes to; the inner \<open>try\<close> skips an entry whose descriptor cannot be read.
\<close>

fun scan_registry ::
  "FileSystem \<Rightarrow> path \<Rightarrow> Dirent list \<Rightarrow> AvailableSkill list \<Rightarrow> AvailableSkill list" where
  "scan_registry fs registryDir [] available = available"
| "scan_registry fs registryDir (entry # entries) available =
     (if \<not> ent_isDirectory entry then scan_registry fs registryDir entries available
      else
        let skillMdPath = registryDir @ [ent_name entry, js ''SKILL.md''] in
        if \<not> existsSync fs skillMdPath then scan_registry fs registryDir entries available
        else
          (case readFileSync fs skillMdPath of
             None \<Rightarrow> scan_registry fs registryDir entries available
           | Some content \<Rightarrow>
               let fm = parseSkillFrontmatter content in
               scan_registry fs registryDir entries
                 (available @
                  [\<lparr>sk_name = ent_name entry,
                    sk_displayName = (if fm_name fm \<noteq> [] then fm_name fm else ent_name entry),
                    sk_description =
                      (if fm_description fm \<noteq> [] then fm_description fm else [])\<rparr>])))"

text \<open>
  \<open>homedir\<close> is \<open>os.homedir()\<close>. The outer \<open>try\<close> catches what \<open>readdirSync\<close>
  throws, before any entry is looked at.
\<close>

definition available_skills :: "FileSystem \<Rightarrow> path \<Rightarrow> AvailableSkill list" where
  "available_skills fs homedir =
     (let registryDir = homedir @ [js ''.dawg'', js ''skills''] in
      if existsSync fs registryDir
      then (case readdirSync fs registryDir of
              None \<Rightarrow> []
            | Some entries \<Rightarrow> scan_registry fs registryDir entries [])
      else [])"

section \<open>Route handlers\<close>

text \<open>
  What a \<open>catch\<close> receives: an \<open>Error\<close> with its message, or some other thrown
  value. \<open>error instanceof Error ? error.message : fallback\<close> is \<open>error_message\<close>.
\<close>

datatype thrown = ThrownError js_string | ThrownOther

fun error_message :: "thrown \<Rightarrow> js_string \<Rightarrow> js_string" where
  "error_message (ThrownError m) fallback = m"
| "error_message ThrownOther fallback = fallback"

text \<open>
  A JSON response: \<open>Success x\<close> is status 200 with \<open>success: true\<close> and the payload
  \<open>x\<close>; \<open>Failure code msg\<close> is the given status with \<open>success: false\<close> and
  \<open>error: msg\<close>.
\<close>

datatype 'a response = Success 'a | Failure nat js_string

text \<open>
  Reading a property of a parsed body, as the destructuring of the handlers does. None
  of the names they read is a property of a string, a number, a boolean or an array,
  so only an object can hold one. Destructuring \<open>null\<close> throws a TypeError; its
  message is the engine's, the parameter \<open>tmsg\<close> of the handlers.
\<close>

fun get_prop :: "jsval \<Rightarrow> js_string \<Rightarrow> jsval" where
  "get_prop (JObj ps) k = (case map_of ps k of Some v \<Rightarrow> v | None \<Rightarrow> JUndefined)"
| "get_prop _ k = JUndefined"

definition destructurable :: "jsval \<Rightarrow> bool" where
  "destructurable body \<longleftrightarrow> body \<noteq> JNull \<and> body \<noteq> JUndefined"

text \<open>\<open>v || undefined\<close>\<close>

definition or_undefined :: "jsval \<Rightarrow> jsval" where
  "or_undefined v = (if truthy v then v else JUndefined)"

subsection \<open>POST /api/worktrees/:id/hooks/report\<close>

text \<open>
  The record the handler hands to \<open>hooksManager.reportSkillResult\<close>. A start report
  has no \<open>success\<close>, \<open>summary\<close>, \<open>content\<close> or \<open>filePath\<close> key: \<open>None\<close> and
  \<open>JUndefined\<close> here.
\<close>

record SkillHookResult =
  res_skillName :: jsval
  res_trigger :: jsval
  res_status :: js_string
  res_success :: "bool option"
  res_summary :: jsval
  res_content :: jsval
  res_filePath :: jsval
  res_reportedAt :: js_string

text \<open>
  \<open>HooksManager\<close> is not among the sources: its \<open>reportSkillResult\<close> is the parameter
  \<open>store\<close>, which takes the worktree id, the record and the manager's state and
  returns what it throws, if anything, and the new state. \<open>now\<close> is
  \<open>new Date().toISOString()\<close>; \<open>req\<close> is what \<open>c.req.json()\<close> yields, \<open>Inl\<close> when it
  rejects.
\<close>

definition after_store :: "thrown option \<times> 'm \<Rightarrow> unit response \<times> 'm" where
  "after_store r =
     (case r of
        (None, m') \<Rightarrow> (Success (), m')
      | (Some e, m') \<Rightarrow> (Failure 400 (error_message e (js ''Failed to report result'')), m'))"

definition report_route ::
  "(js_string \<Rightarrow> SkillHookResult \<Rightarrow> 'm \<Rightarrow> thrown option \<times> 'm) \<Rightarrow> js_string \<Rightarrow> js_string \<Rightarrow>
   js_string \<Rightarrow> thrown + jsval \<Rightarrow> 'm \<Rightarrow> unit response \<times> 'm" where
  "report_route store tmsg now worktreeId req m =
     (case req of
        Inl e \<Rightarrow> (Failure 400 (error_message e (js ''Failed to report result'')), m)
      | Inr body \<Rightarrow>
          if \<not> destructurable body then (Failure 400 tmsg, m)
          else
            let skillName = get_prop body (js ''skillName'');
                trigger = get_prop body (js ''trigger'');
                success = get_prop body (js ''success'');
                summary = get_prop body (js ''summary'');
                content = get_prop body (js ''content'');
                filePath = get_prop body (js ''filePath'')
            in
              if \<not> truthy skillName then (Failure 400 (js ''skillName is required''), m)
              else if success = JUndefined \<or> success = JNull then
                after_store (store worktreeId
                  \<lparr>res_skillName = skillName, res_trigger = trigger,
                   res_status = js ''running'', res_success = None,
                   res_summary = JUndefined, res_content = JUndefined,
                   res_filePath = JUndefined, res_reportedAt = now\<rparr> m)
              else
                (case success of
                   JBool b \<Rightarrow>
                     after_store (store worktreeId
                       \<lparr>res_skillName = skillName, res_trigger = trigger,
                        res_status = (if b then js ''passed'' else js ''failed''),
                        res_success = Some b,
                        res_summary = or_undefined summary,
                        res_content = or_undefined content,
                        res_filePath = or_undefined filePath,
                        res_reportedAt = now\<rparr> m)
                 | _ \<Rightarrow> (Failure 400 (js ''success must be a boolean''), m)))"

subsection \<open>POST /api/hooks/steps\<close>

text \<open>The options object the handler passes to \<open>hooksManager.addStep\<close>.\<close>

record StepOptions =
  opt_kind :: jsval
  opt_prompt :: jsval
  opt_trigger :: jsval
  opt_condition :: jsval
  opt_conditionTitle :: jsval

text \<open>
  \<open>hooksManager.addStep\<close> is the parameter \<open>addStep\<close>: from the name, the command,
  the options and the manager's state to the config it returns (\<open>Inl\<close> when it
  throws) and the new state.
\<close>

definition addStep_route ::
  "(jsval \<Rightarrow> jsval \<Rightarrow> StepOptions \<Rightarrow> 'm \<Rightarrow> (thrown + 'c) \<times> 'm) \<Rightarrow> js_string \<Rightarrow>
   thrown + jsval \<Rightarrow> 'm \<Rightarrow> 'c response \<times> 'm" where
  "addStep_route addStep tmsg req m =
     (case req of
        Inl e \<Rightarrow> (Failure 400 (error_message e (js ''Invalid request'')), m)
      | Inr body \<Rightarrow>
          if \<not> destructurable body then (Failure 400 tmsg, m)
          else
            let name = get_prop body (js ''name'');
                command = get_prop body (js ''command'');
                kind = get_prop body (js ''kind'');
                prompt = get_prop body (js ''prompt'');
                trigger = get_prop body (js ''trigger'');
                condition = get_prop body (js ''condition'');
                conditionTitle = get_prop body (js ''conditionTitle'');
                isPrompt = (kind = JStr (js ''prompt''))
            in
              if \<not> truthy name \<or> (\<not> isPrompt \<and> \<not> truthy command) \<or>
                 (isPrompt \<and> \<not> truthy prompt)
              then
                (Failure 400
                   (if isPrompt then js ''name and prompt are required''
                    else js ''name and command are required''), m)
              else
                (case addStep name (if isPrompt then JStr [] else command)
                        \<lparr>opt_kind = kind, opt_prompt = prompt, opt_trigger = trigger,
                         opt_condition = condition, opt_conditionTitle = conditionTitle\<rparr> m of
                   (Inr config, m') \<Rightarrow> (Success config, m')
                 | (Inl e, m') \<Rightarrow>
                     (Failure 400 (error_message e (js ''Invalid request'')), m')))"

subsection \<open>DELETE /api/hooks/steps/:stepId\<close>

text \<open>
  The handler has no \<open>try\<close>: what \<open>hooksManager.removeStep\<close> (the parameter
  \<open>removeStep\<close>) throws leaves the handler, \<open>Inl\<close> here.
\<close>

definition removeStep_route ::
  "(js_string \<Rightarrow> 'm \<Rightarrow> (thrown + 'c) \<times> 'm) \<Rightarrow> js_string \<Rightarrow> 'm \<Rightarrow>
   (thrown + 'c response) \<times> 'm" where
  "removeStep_route removeStep stepId m =
     (case removeStep stepId m of
        (Inr config, m') \<Rightarrow> (Inr (Success config), m')
      | (Inl e, m') \<Rightarrow> (Inl e, m'))"

text \<open>
  Modelled from the spec: \<open>HooksManager.removeStep\<close> and the config it keeps, which
  are in \<open>server/verification-manager\<close>, not among the sources. The spec: a config is
  an ordered sequence of steps (with skill hooks and settings, the record's extension
  here), ids are unique within a config, and \<open>removeStep(stepId)\<close> returns the
  resulting config, which is unchanged when the id is absent; it has no failure. The
  manager's state is the config.
\<close>

record HooksConfig =
  cfg_steps :: "HookStep list"

definition removeStep_spec ::
  "js_string \<Rightarrow> 'a HooksConfig_scheme \<Rightarrow>
   (thrown + 'a HooksConfig_scheme) \<times> 'a HooksConfig_scheme" where
  "removeStep_spec stepId config =
     (let config' = config\<lparr>cfg_steps := filter (\<lambda>s. step_id s \<noteq> stepId) (cfg_steps config)\<rparr>
      in (Inr config', config'))"

section \<open>Properties of the trigger model\<close>

lemma hook_triggers_distinct: "distinct hook_triggers"
  by (simp add: hook_triggers_def js_def)

lemma hook_triggers_lower: "t \<in> set hook_triggers \<Longrightarrow> map lower_unit t = t"
  by (auto simp add: hook_triggers_def js_def lower_unit_def)

lemma normalizeHookTrigger_member:
  "t \<in> set hook_triggers \<Longrightarrow> normalizeHookTrigger (JStr t) = t"
  by (auto simp add: hook_triggers_def normalizeHookTrigger_def)

lemma normalizeHookTrigger_other:
  "v \<notin> JStr ` set hook_triggers \<Longrightarrow> normalizeHookTrigger v = js ''post-implementation''"
  by (cases v) (auto simp add: hook_triggers_def normalizeHookTrigger_def)

text \<open>
  C1. For every value that is not one of the four recognized literals,
  \<open>normalizeHookTrigger\<close> returns \<open>post-implementation\<close>; for each of the four
  literals it returns the value unchanged.
\<close>

theorem normalizeHookTrigger_default_or_unchanged:
  "(v \<notin> JStr ` set hook_triggers \<longrightarrow>
      normalizeHookTrigger v = js ''post-implementation'') \<and>
   (\<forall>t \<in> set hook_triggers. normalizeHookTrigger (JStr t) = t)"
  using normalizeHookTrigger_member normalizeHookTrigger_other by blast

theorem normalizeHookTrigger_default_or_unchanged_witness:
  "JNum (Finite 3) \<notin> JStr ` set hook_triggers \<and>
   normalizeHookTrigger (JNum (Finite 3)) = js ''post-implementation'' \<and>
   js ''custom'' \<in> set hook_triggers \<and>
   normalizeHookTrigger (JStr (js ''custom'')) = js ''custom''"
proof -
  have a: "JNum (Finite 3) \<notin> JStr ` set hook_triggers"
    by auto
  have b: "js ''custom'' \<in> set hook_triggers"
    by (simp add: hook_triggers_def)
  from a b normalizeHookTrigger_default_or_unchanged [of "JNum (Finite 3)"]
  show ?thesis by blast
qed

text \<open>
  C9. Normalization compares by case-sensitive equality: an input that differs from a
  recognized literal only in letter case (\<open>Pre-Implementation\<close>, \<open>CUSTOM\<close>) is not
  recognized and normalizes to \<open>post-implementation\<close>.
\<close>

theorem normalizeHookTrigger_case_sensitive:
  assumes "t \<in> set hook_triggers" and "differs_only_in_case s t"
  shows "normalizeHookTrigger (JStr s) = js ''post-implementation''"
proof -
  have "s \<notin> set hook_triggers"
  proof
    assume "s \<in> set hook_triggers"
    then have "map lower_unit s = s"
      by (rule hook_triggers_lower)
    moreover have "map lower_unit t = t"
      using assms(1) by (rule hook_triggers_lower)
    ultimately show False
      using assms(2) by (simp add: differs_only_in_case_def)
  qed
  then have "JStr s \<notin> JStr ` set hook_triggers"
    by auto
  then show ?thesis
    by (rule normalizeHookTrigger_other)
qed

theorem normalizeHookTrigger_case_sensitive_witness:
  "js ''custom'' \<in> set hook_triggers \<and>
   differs_only_in_case (js ''CUSTOM'') (js ''custom'') \<and>
   normalizeHookTrigger (JStr (js ''CUSTOM'')) = js ''post-implementation'' \<and>
   js ''pre-implementation'' \<in> set hook_triggers \<and>
   differs_only_in_case (js ''Pre-Implementation'') (js ''pre-implementation'') \<and>
   normalizeHookTrigger (JStr (js ''Pre-Implementation'')) = js ''post-implementation''"
proof -
  have a: "js ''custom'' \<in> set hook_triggers"
    by (simp add: hook_triggers_def)
  have b: "differs_only_in_case (js ''CUSTOM'') (js ''custom'')"
    by (simp add: differs_only_in_case_def lower_unit_def js_def)
  have c: "js ''pre-implementation'' \<in> set hook_triggers"
    by (simp add: hook_triggers_def)
  have d: "differs_only_in_case (js ''Pre-Implementation'') (js ''pre-implementation'')"
    by (simp add: differs_only_in_case_def lower_unit_def js_def)
  from a b c d
    normalizeHookTrigger_case_sensitive [OF a b]
    normalizeHookTrigger_case_sensitive [OF c d]
  show ?thesis by simp
qed

section \<open>Properties of the step classification\<close>

text \<open>
  C2. A request for \<open>post-implementation\<close> matches a step whose trigger is
  \<open>post-implementation\<close> or unset, and no step with any other trigger: it matches
  exactly the steps whose trigger is \<open>post-implementation\<close>, unset, or the empty
  string, which the falsiness test takes for unset. A request for any other trigger
  matches exactly the steps whose trigger equals it. So a step with no trigger matches
  \<open>post-implementation\<close> requests only.
\<close>

theorem matchesTrigger_post_default_else_exact:
  "(matchesTrigger step (js ''post-implementation'') \<longleftrightarrow>
      step_trigger step = Some (js ''post-implementation'') \<or> step_trigger step = None \<or>
      step_trigger step = Some []) \<and>
   ((step_trigger step = Some (js ''post-implementation'') \<or> step_trigger step = None) \<longrightarrow>
      matchesTrigger step (js ''post-implementation'')) \<and>
   (\<forall>t. t \<noteq> js ''post-implementation'' \<longrightarrow>
      (matchesTrigger step t \<longleftrightarrow> step_trigger step = Some t)) \<and>
   (step_trigger step = None \<longrightarrow>
      (\<forall>t. matchesTrigger step t \<longleftrightarrow> t = js ''post-implementation''))"
proof -
  have post: "matchesTrigger step (js ''post-implementation'') \<longleftrightarrow>
      step_trigger step = Some (js ''post-implementation'') \<or> step_trigger step = None \<or>
      step_trigger step = Some []"
    by (cases "step_trigger step") (auto simp add: matchesTrigger_def)
  have other: "\<forall>t. t \<noteq> js ''post-implementation'' \<longrightarrow>
      (matchesTrigger step t \<longleftrightarrow> step_trigger step = Some t)"
    by (simp add: matchesTrigger_def)
  have unset: "step_trigger step = None \<longrightarrow>
      (\<forall>t. matchesTrigger step t \<longleftrightarrow> t = js ''post-implementation'')"
    by (auto simp add: matchesTrigger_def)
  from post other unset show ?thesis
    by blast
qed

theorem matchesTrigger_post_default_else_exact_witness:
  "matchesTrigger
     \<lparr>step_id = js ''s1'', step_name = js ''lint'', step_command = Some (js ''run lint''),
      step_kind = None, step_prompt = None, step_trigger = None, step_enabled = None\<rparr>
     (js ''post-implementation'') \<and>
   \<not> matchesTrigger
     \<lparr>step_id = js ''s1'', step_name = js ''lint'', step_command = Some (js ''run lint''),
      step_kind = None, step_prompt = None, step_trigger = None, step_enabled = None\<rparr>
     (js ''custom'') \<and>
   matchesTrigger
     \<lparr>step_id = js ''s2'', step_name = js ''audit'', step_command = Some (js ''run audit''),
      step_kind = None, step_prompt = None, step_trigger = Some (js ''on-demand''),
      step_enabled = None\<rparr>
     (js ''on-demand'') \<and>
   \<not> matchesTrigger
     \<lparr>step_id = js ''s2'', step_name = js ''audit'', step_command = Some (js ''run audit''),
      step_kind = None, step_prompt = None, step_trigger = Some (js ''on-demand''),
      step_enabled = None\<rparr>
     (js ''pre-implementation'') \<and>
   \<not> matchesTrigger
     \<lparr>step_id = js ''s2'', step_name = js ''audit'', step_command = Some (js ''run audit''),
      step_kind = None, step_prompt = None, step_trigger = Some (js ''on-demand''),
      step_enabled = None\<rparr>
     (js ''post-implementation'')"
proof -
  let ?unset = "\<lparr>step_id = js ''s1'', step_name = js ''lint'',
      step_command = Some (js ''run lint''), step_kind = None, step_prompt = None,
      step_trigger = None, step_enabled = None\<rparr>"
  let ?demand = "\<lparr>step_id = js ''s2'', step_name = js ''audit'',
      step_command = Some (js ''run audit''), step_kind = None, step_prompt = None,
      step_trigger = Some (js ''on-demand''), step_enabled = None\<rparr>"
  have ne: "js ''custom'' \<noteq> js ''post-implementation''"
    "js ''on-demand'' \<noteq> js ''post-implementation''"
    "js ''pre-implementation'' \<noteq> js ''post-implementation''"
    "js ''on-demand'' \<noteq> js ''pre-implementation''"
    "js ''on-demand'' \<noteq> []"
    by (simp_all add: js_def)
  have u: "step_trigger ?unset = None"
    by simp
  have d: "step_trigger ?demand = Some (js ''on-demand'')"
    by simp
  note unset = matchesTrigger_post_default_else_exact [of ?unset]
  note demand = matchesTrigger_post_default_else_exact [of ?demand]
  have a1: "matchesTrigger ?unset (js ''post-implementation'')"
    using unset u by blast
  have a2: "\<not> matchesTrigger ?unset (js ''custom'')"
    using unset u ne(1) by blast
  have a3: "matchesTrigger ?demand (js ''on-demand'')"
    using demand d ne(2) by blast
  have a4: "\<not> matchesTrigger ?demand (js ''pre-implementation'')"
    using demand d ne(3,4) by auto
  have a5: "\<not> matchesTrigger ?demand (js ''post-implementation'')"
    using demand d ne(2,5) by auto
  from a1 a2 a3 a4 a5 show ?thesis
    by blast
qed

text \<open>
  C10. A step whose trigger is the empty string is treated like one whose trigger is
  unset (the test is falsiness): for every trigger a request can carry, it matches
  exactly when the unset step does, which is for \<open>post-implementation\<close> only.
\<close>

theorem matchesTrigger_empty_trigger_as_unset:
  assumes "step_trigger step = Some []" and "t \<in> set hook_triggers"
  shows "(matchesTrigger step t \<longleftrightarrow> matchesTrigger (step\<lparr>step_trigger := None\<rparr>) t) \<and>
         (matchesTrigger step t \<longleftrightarrow> t = js ''post-implementation'')"
proof -
  have "t \<noteq> []"
    using assms(2) by (auto simp add: hook_triggers_def js_def)
  then show ?thesis
    using assms(1) by (auto simp add: matchesTrigger_def)
qed

theorem matchesTrigger_empty_trigger_as_unset_witness:
  "js ''post-implementation'' \<in> set hook_triggers \<and>
   js ''custom'' \<in> set hook_triggers \<and>
   matchesTrigger
     \<lparr>step_id = js ''s1'', step_name = js ''lint'', step_command = Some (js ''run lint''),
      step_kind = None, step_prompt = None, step_trigger = Some [], step_enabled = None\<rparr>
     (js ''post-implementation'') \<and>
   \<not> matchesTrigger
     \<lparr>step_id = js ''s1'', step_name = js ''lint'', step_command = Some (js ''run lint''),
      step_kind = None, step_prompt = None, step_trigger = Some [], step_enabled = None\<rparr>
     (js ''custom'')"
proof -
  let ?step = "\<lparr>step_id = js ''s1'', step_name = js ''lint'',
      step_command = Some (js ''run lint''), step_kind = None, step_prompt = None,
      step_trigger = Some [], step_enabled = None\<rparr>"
  have e: "step_trigger ?step = Some []"
    by simp
  have a: "js ''post-implementation'' \<in> set hook_triggers"
    by (simp add: hook_triggers_def)
  have b: "js ''custom'' \<in> set hook_triggers"
    by (simp add: hook_triggers_def)
  have ne: "js ''custom'' \<noteq> js ''post-implementation''"
    by (simp add: js_def)
  show ?thesis
    using a b ne
      matchesTrigger_empty_trigger_as_unset [OF e a]
      matchesTrigger_empty_trigger_as_unset [OF e b]
    by blast
qed

lemma trim_empty_iff: "trim s = [] \<longleftrightarrow> (\<forall>c \<in> set s. is_ws c)"
proof
  assume "trim s = []"
  then have "dropWhile is_ws (rev (dropWhile is_ws s)) = []"
    by (simp add: trim_def)
  then have "\<forall>c \<in> set (dropWhile is_ws s). is_ws c"
    by (simp add: dropWhile_eq_Nil_conv)
  moreover have "dropWhile is_ws s = [] \<or> \<not> is_ws (hd (dropWhile is_ws s))"
    using hd_dropWhile [of is_ws s] by blast
  ultimately have "dropWhile is_ws s = []"
    using hd_in_set by blast
  then show "\<forall>c \<in> set s. is_ws c"
    by (simp add: dropWhile_eq_Nil_conv)
next
  assume "\<forall>c \<in> set s. is_ws c"
  then show "trim s = []"
    by (auto simp add: trim_def dest: set_dropWhileD)
qed

text \<open>
  C3. A step is runnable exactly when its kind is not \<open>prompt\<close> and its command,
  trimmed, is non-empty. So a step of kind \<open>prompt\<close> is never runnable, whatever its
  command; a step whose command is unset, empty or whitespace only is never runnable,
  whatever its kind and prompt; and a step with a non-empty trimmed command and a
  non-empty prompt is runnable unless its kind is \<open>prompt\<close>.
\<close>

theorem isRunnableCommandStep_iff:
  "(isRunnableCommandStep step \<longleftrightarrow>
      step_kind step \<noteq> Some (js ''prompt'') \<and>
      (\<exists>c. step_command step = Some c \<and> trim c \<noteq> [])) \<and>
   (step_kind step = Some (js ''prompt'') \<longrightarrow> \<not> isRunnableCommandStep step) \<and>
   ((step_command step = None \<or>
     (\<exists>c. step_command step = Some c \<and> (\<forall>u \<in> set c. is_ws u))) \<longrightarrow>
      \<not> isRunnableCommandStep step) \<and>
   ((\<exists>c. step_command step = Some c \<and> trim c \<noteq> []) \<and>
    (\<exists>p. step_prompt step = Some p \<and> p \<noteq> []) \<longrightarrow>
      (isRunnableCommandStep step \<longleftrightarrow> step_kind step \<noteq> Some (js ''prompt'')))"
proof -
  have main: "isRunnableCommandStep step \<longleftrightarrow>
      step_kind step \<noteq> Some (js ''prompt'') \<and>
      (\<exists>c. step_command step = Some c \<and> trim c \<noteq> [])"
    by (cases "step_command step") (auto simp add: isRunnableCommandStep_def Let_def)
  have blank: "\<not> isRunnableCommandStep step"
    if "step_command step = None \<or>
        (\<exists>c. step_command step = Some c \<and> (\<forall>u \<in> set c. is_ws u))"
    using that main trim_empty_iff by auto
  show ?thesis
    using main blank by blast
qed

theorem isRunnableCommandStep_iff_witness:
  "\<not> isRunnableCommandStep
     \<lparr>step_id = js ''s1'', step_name = js ''review'', step_command = Some (js ''npm test''),
      step_kind = Some (js ''prompt''), step_prompt = Some (js ''check the diff''),
      step_trigger = None, step_enabled = None\<rparr> \<and>
   \<not> isRunnableCommandStep
     \<lparr>step_id = js ''s2'', step_name = js ''blank'', step_command = Some (js ''  ''),
      step_kind = Some (js ''command''), step_prompt = Some (js ''check the diff''),
      step_trigger = None, step_enabled = None\<rparr> \<and>
   isRunnableCommandStep
     \<lparr>step_id = js ''s3'', step_name = js ''test'', step_command = Some (js ''npm test''),
      step_kind = None, step_prompt = Some (js ''check the diff''),
      step_trigger = None, step_enabled = None\<rparr>"
proof -
  let ?a = "\<lparr>step_id = js ''s1'', step_name = js ''review'',
      step_command = Some (js ''npm test''), step_kind = Some (js ''prompt''),
      step_prompt = Some (js ''check the diff''), step_trigger = None,
      step_enabled = None\<rparr>"
  let ?b = "\<lparr>step_id = js ''s2'', step_name = js ''blank'',
      step_command = Some (js ''  ''), step_kind = Some (js ''command''),
      step_prompt = Some (js ''check the diff''), step_trigger = None,
      step_enabled = None\<rparr>"
  let ?c = "\<lparr>step_id = js ''s3'', step_name = js ''test'',
      step_command = Some (js ''npm test''), step_kind = None,
      step_prompt = Some (js ''check the diff''), step_trigger = None,
      step_enabled = None\<rparr>"
  have a: "step_kind ?a = Some (js ''prompt'')"
    by simp
  have b: "\<exists>c. step_command ?b = Some c \<and> (\<forall>u \<in> set c. is_ws u)"
    by (simp add: js_def is_ws_def)
  have c: "(\<exists>c. step_command ?c = Some c \<and> trim c \<noteq> []) \<and>
           (\<exists>p. step_prompt ?c = Some p \<and> p \<noteq> [])"
    by (simp add: js_def trim_def is_ws_def)
  have k: "step_kind ?c \<noteq> Some (js ''prompt'')"
    by simp
  show ?thesis
    using a b c k
      isRunnableCommandStep_iff [of ?a]
      isRunnableCommandStep_iff [of ?b]
      isRunnableCommandStep_iff [of ?c]
    by blast
qed

section \<open>Properties of the route handlers\<close>

lemma truthy_destructurable: "truthy (get_prop body k) \<Longrightarrow> destructurable body"
  by (cases body) (auto simp add: destructurable_def)

text \<open>
  C4. A self-report whose \<open>skillName\<close> is non-empty (truthy) and whose \<open>success\<close> is
  absent or \<open>null\<close> is handed to the store as a record with status \<open>running\<close> and
  the timestamp; with a boolean \<open>success\<close> the record has status \<open>passed\<close> or
  \<open>failed\<close>, the boolean, the timestamp, and each of \<open>summary\<close>, \<open>content\<close>,
  \<open>filePath\<close> the report gives (a field that is absent or empty is unset). A report
  whose \<open>success\<close> is present and not a boolean, or whose \<open>skillName\<close> is missing, is
  answered with status 400 and its message, and the store is not called: the
  manager's state is the one before the request. The store is any function; the
  response after a call to it is success unless the store throws.
\<close>

theorem report_route_phases:
  "(truthy (get_prop body (js ''skillName'')) \<and>
    (get_prop body (js ''success'') = JUndefined \<or> get_prop body (js ''success'') = JNull) \<longrightarrow>
      report_route store tmsg now worktreeId (Inr body) m =
        after_store (store worktreeId
          \<lparr>res_skillName = get_prop body (js ''skillName''),
           res_trigger = get_prop body (js ''trigger''),
           res_status = js ''running'', res_success = None,
           res_summary = JUndefined, res_content = JUndefined, res_filePath = JUndefined,
           res_reportedAt = now\<rparr> m)) \<and>
   (truthy (get_prop body (js ''skillName'')) \<and>
    get_prop body (js ''success'') = JBool b \<longrightarrow>
      report_route store tmsg now worktreeId (Inr body) m =
        after_store (store worktreeId
          \<lparr>res_skillName = get_prop body (js ''skillName''),
           res_trigger = get_prop body (js ''trigger''),
           res_status = (if b then js ''passed'' else js ''failed''),
           res_success = Some b,
           res_summary = or_undefined (get_prop body (js ''summary'')),
           res_content = or_undefined (get_prop body (js ''content'')),
           res_filePath = or_undefined (get_prop body (js ''filePath'')),
           res_reportedAt = now\<rparr> m)) \<and>
   (truthy (get_prop body (js ''skillName'')) \<and>
    get_prop body (js ''success'') \<noteq> JUndefined \<and> get_prop body (js ''success'') \<noteq> JNull \<and>
    (\<forall>b. get_prop body (js ''success'') \<noteq> JBool b) \<longrightarrow>
      report_route store tmsg now worktreeId (Inr body) m =
        (Failure 400 (js ''success must be a boolean''), m)) \<and>
   (destructurable body \<and> \<not> truthy (get_prop body (js ''skillName'')) \<longrightarrow>
      report_route store tmsg now worktreeId (Inr body) m =
        (Failure 400 (js ''skillName is required''), m)) \<and>
   (\<not> destructurable body \<longrightarrow>
      report_route store tmsg now worktreeId (Inr body) m = (Failure 400 tmsg, m))"
proof (intro conjI impI)
  assume a: "truthy (get_prop body (js ''skillName'')) \<and>
    (get_prop body (js ''success'') = JUndefined \<or> get_prop body (js ''success'') = JNull)"
  then have "destructurable body"
    using truthy_destructurable by blast
  with a show "report_route store tmsg now worktreeId (Inr body) m =
        after_store (store worktreeId
          \<lparr>res_skillName = get_prop body (js ''skillName''),
           res_trigger = get_prop body (js ''trigger''),
           res_status = js ''running'', res_success = None,
           res_summary = JUndefined, res_content = JUndefined, res_filePath = JUndefined,
           res_reportedAt = now\<rparr> m)"
    by (auto simp add: report_route_def Let_def)
next
  assume a: "truthy (get_prop body (js ''skillName'')) \<and>
        get_prop body (js ''success'') = JBool b"
  then have "destructurable body"
    using truthy_destructurable by blast
  with a show "report_route store tmsg now worktreeId (Inr body) m =
        after_store (store worktreeId
          \<lparr>res_skillName = get_prop body (js ''skillName''),
           res_trigger = get_prop body (js ''trigger''),
           res_status = (if b then js ''passed'' else js ''failed''),
           res_success = Some b,
           res_summary = or_undefined (get_prop body (js ''summary'')),
           res_content = or_undefined (get_prop body (js ''content'')),
           res_filePath = or_undefined (get_prop body (js ''filePath'')),
           res_reportedAt = now\<rparr> m)"
    by (simp add: report_route_def Let_def)
next
  assume a: "truthy (get_prop body (js ''skillName'')) \<and>
    get_prop body (js ''success'') \<noteq> JUndefined \<and> get_prop body (js ''success'') \<noteq> JNull \<and>
    (\<forall>b. get_prop body (js ''success'') \<noteq> JBool b)"
  then have "destructurable body"
    using truthy_destructurable by blast
  with a show "report_route store tmsg now worktreeId (Inr body) m =
        (Failure 400 (js ''success must be a boolean''), m)"
    by (cases "get_prop body (js ''success'')") (auto simp add: report_route_def Let_def)
next
  assume "destructurable body \<and> \<not> truthy (get_prop body (js ''skillName''))"
  then show "report_route store tmsg now worktreeId (Inr body) m =
        (Failure 400 (js ''skillName is required''), m)"
    by (simp add: report_route_def Let_def)
next
  assume "\<not> destructurable body"
  then show "report_route store tmsg now worktreeId (Inr body) m = (Failure 400 tmsg, m)"
    by (simp add: report_route_def)
qed

theorem report_route_phases_witness:
  "report_route (\<lambda>w r m. (None, (w, r) # m)) (js ''null body'') (js ''2026-01-01T00:00:00.000Z'')
     (js ''wt1'')
     (Inr (JObj [(js ''skillName'', JStr (js ''lint'')), (js ''trigger'', JStr (js ''custom''))])) [] =
   (Success (),
    [(js ''wt1'',
      \<lparr>res_skillName = JStr (js ''lint''), res_trigger = JStr (js ''custom''),
       res_status = js ''running'', res_success = None, res_summary = JUndefined,
       res_content = JUndefined, res_filePath = JUndefined,
       res_reportedAt = js ''2026-01-01T00:00:00.000Z''\<rparr>)]) \<and>
   report_route (\<lambda>w r m. (None, (w, r) # m)) (js ''null body'') (js ''2026-01-01T00:00:00.000Z'')
     (js ''wt1'')
     (Inr (JObj [(js ''skillName'', JStr (js ''lint'')), (js ''trigger'', JStr (js ''custom'')),
                 (js ''success'', JBool False), (js ''summary'', JStr (js ''2 errors''))])) [] =
   (Success (),
    [(js ''wt1'',
      \<lparr>res_skillName = JStr (js ''lint''), res_trigger = JStr (js ''custom''),
       res_status = js ''failed'', res_success = Some False,
       res_summary = JStr (js ''2 errors''), res_content = JUndefined,
       res_filePath = JUndefined, res_reportedAt = js ''2026-01-01T00:00:00.000Z''\<rparr>)]) \<and>
   report_route (\<lambda>w r m. (None, (w, r) # m)) (js ''null body'') (js ''2026-01-01T00:00:00.000Z'')
     (js ''wt1'')
     (Inr (JObj [(js ''skillName'', JStr (js ''lint'')), (js ''success'', JStr (js ''yes''))])) [] =
   (Failure 400 (js ''success must be a boolean''), []) \<and>
   report_route (\<lambda>w r m. (None, (w, r) # m)) (js ''null body'') (js ''2026-01-01T00:00:00.000Z'')
     (js ''wt1'') (Inr (JObj [(js ''success'', JBool True)])) [] =
   (Failure 400 (js ''skillName is required''), []) \<and>
   report_route (\<lambda>w r m. (None, (w, r) # m)) (js ''null body'') (js ''2026-01-01T00:00:00.000Z'')
     (js ''wt1'') (Inr JNull) [] =
   (Failure 400 (js ''null body''), [])"
proof -
  let ?store = "\<lambda>(w::js_string) (r::SkillHookResult) m. (None :: thrown option, (w, r) # m)"
  let ?b1 = "JObj [(js ''skillName'', JStr (js ''lint'')), (js ''trigger'', JStr (js ''custom''))]"
  let ?b2 = "JObj [(js ''skillName'', JStr (js ''lint'')), (js ''trigger'', JStr (js ''custom'')),
                 (js ''success'', JBool False), (js ''summary'', JStr (js ''2 errors''))]"
  let ?b3 = "JObj [(js ''skillName'', JStr (js ''lint'')), (js ''success'', JStr (js ''yes''))]"
  let ?b4 = "JObj [(js ''success'', JBool True)]"
  note ev = js_def after_store_def or_undefined_def destructurable_def
  have p1: "report_route ?store (js ''null body'') (js ''2026-01-01T00:00:00.000Z'')
     (js ''wt1'') (Inr ?b1) [] =
   (Success (),
    [(js ''wt1'',
      \<lparr>res_skillName = JStr (js ''lint''), res_trigger = JStr (js ''custom''),
       res_status = js ''running'', res_success = None, res_summary = JUndefined,
       res_content = JUndefined, res_filePath = JUndefined,
       res_reportedAt = js ''2026-01-01T00:00:00.000Z''\<rparr>)])"
    using report_route_phases [of ?b1 ?store "js ''null body''" "js ''2026-01-01T00:00:00.000Z''"
        "js ''wt1''" "[]" False]
    by (simp add: ev)
  have p2: "report_route ?store (js ''null body'') (js ''2026-01-01T00:00:00.000Z'')
     (js ''wt1'') (Inr ?b2) [] =
   (Success (),
    [(js ''wt1'',
      \<lparr>res_skillName = JStr (js ''lint''), res_trigger = JStr (js ''custom''),
       res_status = js ''failed'', res_success = Some False,
       res_summary = JStr (js ''2 errors''), res_content = JUndefined,
       res_filePath = JUndefined, res_reportedAt = js ''2026-01-01T00:00:00.000Z''\<rparr>)])"
    using report_route_phases [of ?b2 ?store "js ''null body''" "js ''2026-01-01T00:00:00.000Z''"
        "js ''wt1''" "[]" False]
    by (simp add: ev)
  have p3: "report_route ?store (js ''null body'') (js ''2026-01-01T00:00:00.000Z'')
     (js ''wt1'') (Inr ?b3) [] = (Failure 400 (js ''success must be a boolean''), [])"
    using report_route_phases [of ?b3 ?store "js ''null body''" "js ''2026-01-01T00:00:00.000Z''"
        "js ''wt1''" "[]" False]
    by (simp add: ev)
  have p4: "report_route ?store (js ''null body'') (js ''2026-01-01T00:00:00.000Z'')
     (js ''wt1'') (Inr ?b4) [] = (Failure 400 (js ''skillName is required''), [])"
    using report_route_phases [of ?b4 ?store "js ''null body''" "js ''2026-01-01T00:00:00.000Z''"
        "js ''wt1''" "[]" False]
    by (simp add: ev)
  have p5: "report_route ?store (js ''null body'') (js ''2026-01-01T00:00:00.000Z'')
     (js ''wt1'') (Inr JNull) [] = (Failure 400 (js ''null body''), [])"
    using report_route_phases [of JNull ?store "js ''null body''" "js ''2026-01-01T00:00:00.000Z''"
        "js ''wt1''" "[]" False]
    by (simp add: ev)
  from p1 p2 p3 p4 p5 show ?thesis
    by blast
qed

text \<open>
  C7. Adding a step fails with status 400 and the validation message, the manager not
  called and its state unchanged, whenever the name is empty, or the step is not a
  prompt and the command is empty, or the step is a prompt and the prompt is empty
  (a body that is \<open>null\<close> has none of them). Otherwise the handler calls the
  manager's \<open>addStep\<close> once, with the name, the command (the empty string for a
  prompt) and the options, and answers success with the config that call returns.
\<close>

theorem addStep_route_validation:
  "(destructurable body \<and>
    (\<not> truthy (get_prop body (js ''name'')) \<or>
     (get_prop body (js ''kind'') \<noteq> JStr (js ''prompt'') \<and>
      \<not> truthy (get_prop body (js ''command''))) \<or>
     (get_prop body (js ''kind'') = JStr (js ''prompt'') \<and>
      \<not> truthy (get_prop body (js ''prompt'')))) \<longrightarrow>
      addStep_route addStep tmsg (Inr body) m =
        (Failure 400
           (if get_prop body (js ''kind'') = JStr (js ''prompt'')
            then js ''name and prompt are required''
            else js ''name and command are required''), m)) \<and>
   (\<not> destructurable body \<longrightarrow>
      addStep_route addStep tmsg (Inr body) m = (Failure 400 tmsg, m)) \<and>
   (truthy (get_prop body (js ''name'')) \<and>
    (if get_prop body (js ''kind'') = JStr (js ''prompt'')
     then truthy (get_prop body (js ''prompt''))
     else truthy (get_prop body (js ''command''))) \<longrightarrow>
      addStep_route addStep tmsg (Inr body) m =
        (case addStep (get_prop body (js ''name''))
                (if get_prop body (js ''kind'') = JStr (js ''prompt'') then JStr []
                 else get_prop body (js ''command''))
                \<lparr>opt_kind = get_prop body (js ''kind''),
                 opt_prompt = get_prop body (js ''prompt''),
                 opt_trigger = get_prop body (js ''trigger''),
                 opt_condition = get_prop body (js ''condition''),
                 opt_conditionTitle = get_prop body (js ''conditionTitle'')\<rparr> m of
           (Inr config, m') \<Rightarrow> (Success config, m')
         | (Inl e, m') \<Rightarrow> (Failure 400 (error_message e (js ''Invalid request'')), m')))"
proof (intro conjI impI)
  assume "destructurable body \<and>
    (\<not> truthy (get_prop body (js ''name'')) \<or>
     (get_prop body (js ''kind'') \<noteq> JStr (js ''prompt'') \<and>
      \<not> truthy (get_prop body (js ''command''))) \<or>
     (get_prop body (js ''kind'') = JStr (js ''prompt'') \<and>
      \<not> truthy (get_prop body (js ''prompt''))))"
  then show "addStep_route addStep tmsg (Inr body) m =
        (Failure 400
           (if get_prop body (js ''kind'') = JStr (js ''prompt'')
            then js ''name and prompt are required''
            else js ''name and command are required''), m)"
    by (auto simp add: addStep_route_def Let_def)
next
  assume "\<not> destructurable body"
  then show "addStep_route addStep tmsg (Inr body) m = (Failure 400 tmsg, m)"
    by (simp add: addStep_route_def)
next
  assume a: "truthy (get_prop body (js ''name'')) \<and>
    (if get_prop body (js ''kind'') = JStr (js ''prompt'')
     then truthy (get_prop body (js ''prompt''))
     else truthy (get_prop body (js ''command'')))"
  then have "destructurable body"
    using truthy_destructurable by blast
  with a show "addStep_route addStep tmsg (Inr body) m =
        (case addStep (get_prop body (js ''name''))
                (if get_prop body (js ''kind'') = JStr (js ''prompt'') then JStr []
                 else get_prop body (js ''command''))
                \<lparr>opt_kind = get_prop body (js ''kind''),
                 opt_prompt = get_prop body (js ''prompt''),
                 opt_trigger = get_prop body (js ''trigger''),
                 opt_condition = get_prop body (js ''condition''),
                 opt_conditionTitle = get_prop body (js ''conditionTitle'')\<rparr> m of
           (Inr config, m') \<Rightarrow> (Success config, m')
         | (Inl e, m') \<Rightarrow> (Failure 400 (error_message e (js ''Invalid request'')), m'))"
    by (simp add: addStep_route_def Let_def split: if_splits)
qed

theorem addStep_route_validation_witness:
  "addStep_route (\<lambda>n c opts m. (Inr (m @ [(n, c, opts)]), m @ [(n, c, opts)])) (js ''null body'')
     (Inr (JObj [(js ''name'', JStr (js ''lint'')), (js ''command'', JStr (js ''npm run lint''))])) [] =
   (Success
      [(JStr (js ''lint''), JStr (js ''npm run lint''),
        \<lparr>opt_kind = JUndefined, opt_prompt = JUndefined, opt_trigger = JUndefined,
         opt_condition = JUndefined, opt_conditionTitle = JUndefined\<rparr>)],
    [(JStr (js ''lint''), JStr (js ''npm run lint''),
      \<lparr>opt_kind = JUndefined, opt_prompt = JUndefined, opt_trigger = JUndefined,
       opt_condition = JUndefined, opt_conditionTitle = JUndefined\<rparr>)]) \<and>
   addStep_route (\<lambda>n c opts m. (Inr (m @ [(n, c, opts)]), m @ [(n, c, opts)])) (js ''null body'')
     (Inr (JObj [(js ''name'', JStr (js ''lint''))])) [] =
   (Failure 400 (js ''name and command are required''), []) \<and>
   addStep_route (\<lambda>n c opts m. (Inr (m @ [(n, c, opts)]), m @ [(n, c, opts)])) (js ''null body'')
     (Inr (JObj [(js ''name'', JStr (js ''review'')), (js ''kind'', JStr (js ''prompt'')),
                 (js ''command'', JStr (js ''npm test''))])) [] =
   (Failure 400 (js ''name and prompt are required''), []) \<and>
   addStep_route (\<lambda>n c opts m. (Inr (m @ [(n, c, opts)]), m @ [(n, c, opts)])) (js ''null body'')
     (Inr JNull) [] =
   (Failure 400 (js ''null body''), [])"
proof -
  let ?add = "\<lambda>(n::jsval) (c::jsval) (opts::StepOptions) m.
      (Inr (m @ [(n, c, opts)]) :: thrown + (jsval \<times> jsval \<times> StepOptions) list,
       m @ [(n, c, opts)])"
  let ?b1 = "JObj [(js ''name'', JStr (js ''lint'')), (js ''command'', JStr (js ''npm run lint''))]"
  let ?b2 = "JObj [(js ''name'', JStr (js ''lint''))]"
  let ?b3 = "JObj [(js ''name'', JStr (js ''review'')), (js ''kind'', JStr (js ''prompt'')),
                 (js ''command'', JStr (js ''npm test''))]"
  note ev = js_def destructurable_def
  have p1: "addStep_route ?add (js ''null body'') (Inr ?b1) [] =
   (Success
      [(JStr (js ''lint''), JStr (js ''npm run lint''),
        \<lparr>opt_kind = JUndefined, opt_prompt = JUndefined, opt_trigger = JUndefined,
         opt_condition = JUndefined, opt_conditionTitle = JUndefined\<rparr>)],
    [(JStr (js ''lint''), JStr (js ''npm run lint''),
      \<lparr>opt_kind = JUndefined, opt_prompt = JUndefined, opt_trigger = JUndefined,
       opt_condition = JUndefined, opt_conditionTitle = JUndefined\<rparr>)])"
    using addStep_route_validation [of ?b1 ?add "js ''null body''" "[]"]
    by (simp add: ev)
  have p2: "addStep_route ?add (js ''null body'') (Inr ?b2) [] =
   (Failure 400 (js ''name and command are required''), [])"
    using addStep_route_validation [of ?b2 ?add "js ''null body''" "[]"]
    by (simp add: ev)
  have p3: "addStep_route ?add (js ''null body'') (Inr ?b3) [] =
   (Failure 400 (js ''name and prompt are required''), [])"
    using addStep_route_validation [of ?b3 ?add "js ''null body''" "[]"]
    by (simp add: ev)
  have p4: "addStep_route ?add (js ''null body'') (Inr JNull) [] =
   (Failure 400 (js ''null body''), [])"
    using addStep_route_validation [of JNull ?add "js ''null body''" "[]"]
    by (simp add: ev)
  from p1 p2 p3 p4 show ?thesis
    by blast
qed

text \<open>
  C8. Removing a step id that no step of the config has is not an error: the answer is
  success with a config identical to the one before the call, which stays the
  manager's state.
\<close>

theorem removeStep_route_absent_id:
  assumes "stepId \<notin> step_id ` set (cfg_steps config)"
  shows "removeStep_route removeStep_spec stepId config = (Inr (Success config), config)"
proof -
  have "filter (\<lambda>s. step_id s \<noteq> stepId) (cfg_steps config) = cfg_steps config"
    using assms by (auto simp add: filter_id_conv)
  then show ?thesis
    by (simp add: removeStep_route_def removeStep_spec_def)
qed

theorem removeStep_route_absent_id_witness:
  "js ''s9'' \<notin> step_id ` set (cfg_steps
     \<lparr>cfg_steps =
        [\<lparr>step_id = js ''s1'', step_name = js ''lint'', step_command = Some (js ''npm run lint''),
          step_kind = None, step_prompt = None, step_trigger = None, step_enabled = None\<rparr>,
         \<lparr>step_id = js ''s2'', step_name = js ''test'', step_command = Some (js ''npm test''),
          step_kind = None, step_prompt = None, step_trigger = Some (js ''custom''),
          step_enabled = Some True\<rparr>]\<rparr>) \<and>
   removeStep_route removeStep_spec (js ''s9'')
     \<lparr>cfg_steps =
        [\<lparr>step_id = js ''s1'', step_name = js ''lint'', step_command = Some (js ''npm run lint''),
          step_kind = None, step_prompt = None, step_trigger = None, step_enabled = None\<rparr>,
         \<lparr>step_id = js ''s2'', step_name = js ''test'', step_command = Some (js ''npm test''),
          step_kind = None, step_prompt = None, step_trigger = Some (js ''custom''),
          step_enabled = Some True\<rparr>]\<rparr> =
   (Inr (Success
     \<lparr>cfg_steps =
        [\<lparr>step_id = js ''s1'', step_name = js ''lint'', step_command = Some (js ''npm run lint''),
          step_kind = None, step_prompt = None, step_trigger = None, step_enabled = None\<rparr>,
         \<lparr>step_id = js ''s2'', step_name = js ''test'', step_command = Some (js ''npm test''),
          step_kind = None, step_prompt = None, step_trigger = Some (js ''custom''),
          step_enabled = Some True\<rparr>]\<rparr>),
    \<lparr>cfg_steps =
        [\<lparr>step_id = js ''s1'', step_name = js ''lint'', step_command = Some (js ''npm run lint''),
          step_kind = None, step_prompt = None, step_trigger = None, step_enabled = None\<rparr>,
         \<lparr>step_id = js ''s2'', step_name = js ''test'', step_command = Some (js ''npm test''),
          step_kind = None, step_prompt = None, step_trigger = Some (js ''custom''),
          step_enabled = Some True\<rparr>]\<rparr>)"
proof -
  let ?cfg = "\<lparr>cfg_steps =
        [\<lparr>step_id = js ''s1'', step_name = js ''lint'', step_command = Some (js ''npm run lint''),
          step_kind = None, step_prompt = None, step_trigger = None, step_enabled = None\<rparr>,
         \<lparr>step_id = js ''s2'', step_name = js ''test'', step_command = Some (js ''npm test''),
          step_kind = None, step_prompt = None, step_trigger = Some (js ''custom''),
          step_enabled = Some True\<rparr>]\<rparr>"
  have a: "js ''s9'' \<notin> step_id ` set (cfg_steps ?cfg)"
    by (simp add: js_def)
  from a removeStep_route_absent_id [OF a] show ?thesis
    by blast
qed

section \<open>Properties of the descriptor parser\<close>

lemma closing_units: "closing = [0xA, 0x2D, 0x2D, 0x2D]"
  by (simp add: closing_def js_def LF_def)

lemma lazy_body_sound: "lazy_body s = Some x \<Longrightarrow> \<exists>r. s = x @ closing @ r"
proof (induction s arbitrary: x)
  case Nil
  then show ?case by simp
next
  case (Cons c cs)
  show ?case
  proof (cases "prefix closing (c # cs)")
    case True
    with Cons.prems have "x = []" by simp
    with True show ?thesis by (auto simp add: prefix_def)
  next
    case False
    with Cons.prems obtain y where y: "lazy_body cs = Some y" "x = c # y"
      by auto
    from Cons.IH [OF y(1)] obtain r where "cs = y @ closing @ r" ..
    with y(2) show ?thesis by simp
  qed
qed

lemma no_closing_straddle:
  assumes "\<not> sublist closing (c # x)"
  shows "\<not> prefix closing (c # x @ closing @ r)"
proof
  assume p: "prefix closing (c # x @ closing @ r)"
  have short: "length (c # x) < 4"
  proof (rule ccontr)
    assume "\<not> length (c # x) < 4"
    then have "length closing \<le> length (c # x)"
      by (simp add: closing_units)
    with p have "prefix closing (c # x)"
      by (metis append_Cons prefix_length_prefix prefixI)
    then have "sublist closing (c # x)"
      by (rule prefix_imp_sublist)
    with assms show False ..
  qed
  then consider "x = []" | d where "x = [d]" | d e where "x = [d, e]"
    by (cases x; cases "tl x"; cases "tl (tl x)") auto
  then show False
    using p by cases (simp_all add: closing_units)
qed

lemma lazy_body_first:
  "\<not> sublist closing x \<Longrightarrow> lazy_body (x @ closing @ r) = Some x"
proof (induction x)
  case Nil
  then show ?case by (simp add: closing_units)
next
  case (Cons c x)
  from Cons.prems have "\<not> sublist closing x"
    by (meson sublist_Cons_right)
  then have "lazy_body (x @ closing @ r) = Some x"
    by (rule Cons.IH)
  moreover have "\<not> prefix closing (c # x @ closing @ r)"
    using Cons.prems by (rule no_closing_straddle)
  ultimately show ?case by simp
qed

lemma sublist_drop: "sublist ys (drop k xs) \<Longrightarrow> sublist ys xs"
  by (metis append_take_drop_id sublist_append_leftI sublist_order.order_trans)

lemma split_lines_not_Nil: "split_lines s \<noteq> []"
  by (induction s) (auto split: list.splits)

lemma split_lines_append: "split_lines (u @ LF # v) = split_lines u @ split_lines v"
proof (induction u)
  case Nil
  then show ?case by simp
next
  case (Cons c u)
  then show ?case
    using split_lines_not_Nil [of u] by (auto split: list.splits)
qed

lemma split_lines_units: "l \<in> set (split_lines s) \<Longrightarrow> set l \<subseteq> set s"
proof (induction s arbitrary: l)
  case Nil
  then show ?case by simp
next
  case (Cons c s)
  then show ?case
    by (fastforce split: if_splits list.splits)
qed

lemma key_value_blank: "\<forall>c \<in> set line. is_ws c \<Longrightarrow> key_value line = None"
proof -
  assume "\<forall>c \<in> set line. is_ws c"
  moreover have "\<not> is_ws colon"
    by (simp add: is_ws_def colon_def)
  ultimately have "colon \<notin> set line" by blast
  then show ?thesis
    by (simp add: key_value_def indexOf_def)
qed

lemma scan_lines_skip:
  "\<forall>l \<in> set ls. key_value l = None \<Longrightarrow> scan_lines (ls @ ms) fm = scan_lines ms fm"
  by (induction ls) auto

lemma scan_lines_blank_prefix:
  assumes "\<forall>c \<in> set u. is_ws c"
  shows "scan_lines (split_lines (u @ LF # v)) fm = scan_lines (split_lines v) fm"
proof -
  have "\<forall>l \<in> set (split_lines u). key_value l = None"
    using assms split_lines_units key_value_blank by blast
  then show ?thesis
    by (simp add: split_lines_append scan_lines_skip)
qed

lemma scan_lines_name:
  "fm_name (scan_lines ls fm) =
     (case filter (\<lambda>kv. fst kv = js ''name'') (List.map_filter key_value ls) of
        [] \<Rightarrow> fm_name fm
      | kv # kvs \<Rightarrow> snd (last (kv # kvs)))"
proof (induction ls arbitrary: fm)
  case Nil
  then show ?case by (simp add: List.map_filter_simps)
next
  case (Cons l ls)
  then show ?case
    by (cases "key_value l") (auto simp add: List.map_filter_simps Let_def split: list.splits)
qed

lemma scan_lines_description:
  "fm_description (scan_lines ls fm) =
     (case filter (\<lambda>kv. fst kv = js ''description'') (List.map_filter key_value ls) of
        [] \<Rightarrow> fm_description fm
      | kv # kvs \<Rightarrow> snd (last (kv # kvs)))"
proof (induction ls arbitrary: fm)
  case Nil
  then show ?case by (simp add: List.map_filter_simps)
next
  case (Cons l ls)
  then show ?case
    by (cases "key_value l") (auto simp add: List.map_filter_simps Let_def split: list.splits)
qed

lemma scan_lines_fields:
  "scan_lines ls \<lparr>fm_name = [], fm_description = []\<rparr> =
     \<lparr>fm_name = field_value (js ''name'') ls,
      fm_description = field_value (js ''description'') ls\<rparr>"
proof -
  have "fm_name (scan_lines ls \<lparr>fm_name = [], fm_description = []\<rparr>) =
          field_value (js ''name'') ls"
    by (simp add: scan_lines_name field_value_def split: list.splits)
  moreover have "fm_description (scan_lines ls \<lparr>fm_name = [], fm_description = []\<rparr>) =
          field_value (js ''description'') ls"
    by (simp add: scan_lines_description field_value_def split: list.splits)
  ultimately show ?thesis
    by (cases "scan_lines ls \<lparr>fm_name = [], fm_description = []\<rparr>") simp
qed

lemma greedy_open_sound:
  "greedy_open n s = Some x \<Longrightarrow> \<exists>k \<le> n. after_open k s = Some x"
proof (induction n)
  case 0
  then show ?case by simp
next
  case (Suc n)
  show ?case
  proof (cases "after_open (Suc n) s")
    case None
    with Suc.prems have "greedy_open n s = Some x" by simp
    with Suc.IH obtain k where "k \<le> n" "after_open k s = Some x" by blast
    then show ?thesis by (auto intro!: exI [of _ k])
  next
    case (Some y)
    with Suc.prems have "after_open (Suc n) s = Some x" by simp
    then show ?thesis by blast
  qed
qed

lemma after_open_sound:
  assumes "after_open k s = Some x"
  shows "\<exists>w r. w = take k s \<and> s = w @ LF # x @ closing @ r"
proof -
  from assms have k: "k < length s" and lf: "s ! k = LF"
    and b: "lazy_body (drop (Suc k) s) = Some x"
    by (auto simp add: after_open_def split: if_splits)
  from lazy_body_sound [OF b] obtain r where r: "drop (Suc k) s = x @ closing @ r" ..
  have "take k s @ s ! k # drop (Suc k) s = s"
    using id_take_nth_drop [OF k] by (rule sym)
  then have "s = take k s @ LF # x @ closing @ r"
    by (simp only: lf r)
  then show ?thesis by blast
qed

lemma takeWhile_prefix_all:
  assumes "k \<le> length (takeWhile P xs)"
  shows "\<forall>c \<in> set (take k xs). P c"
proof -
  have "take k (takeWhile P xs @ dropWhile P xs) = take k (takeWhile P xs)"
    using assms by (simp only: take_append) simp
  then have "take k xs = take k (takeWhile P xs)"
    by simp
  then show ?thesis
    by (auto dest: in_set_takeD set_takeWhileD)
qed

lemma frontmatter_match_sound:
  assumes "frontmatter_match content = Some x"
  shows "\<exists>w r. (\<forall>c \<in> set w. is_ws c) \<and> content = js ''---'' @ w @ LF # x @ closing @ r"
proof -
  define rest where "rest = drop 3 content"
  from assms have p: "prefix (js ''---'') content"
    and g: "greedy_open (length (takeWhile is_ws rest)) rest = Some x"
    by (auto simp add: frontmatter_match_def rest_def Let_def split: if_splits)
  from p have c: "content = js ''---'' @ rest"
    by (auto simp add: prefix_def rest_def js_def)
  from greedy_open_sound [OF g] obtain k
    where k: "k \<le> length (takeWhile is_ws rest)" and a: "after_open k rest = Some x"
    by blast
  from after_open_sound [OF a] obtain w r
    where w: "w = take k rest" and r: "rest = w @ LF # x @ closing @ r"
    by blast
  have "\<forall>c \<in> set w. is_ws c"
    unfolding w using k by (rule takeWhile_prefix_all)
  moreover have "content = js ''---'' @ w @ LF # x @ closing @ r"
    by (subst c, subst r) (rule refl)
  ultimately show ?thesis by blast
qed

lemma after_open_block:
  assumes "\<not> sublist closing b" and "k \<le> length b"
  shows "after_open (length w + k) (w @ LF # b @ closing @ r) =
           (if (LF # b) ! k = LF then Some (drop k b) else None)"
proof -
  have "drop (Suc (length w + k)) (w @ LF # b @ closing @ r) = drop k b @ closing @ r"
    using assms(2) by simp
  moreover have "\<not> sublist closing (drop k b)"
    using assms(1) sublist_drop by blast
  ultimately have "lazy_body (drop (Suc (length w + k)) (w @ LF # b @ closing @ r)) =
      Some (drop k b)"
    by (simp add: lazy_body_first)
  moreover have "length w + k < length (w @ LF # b @ closing @ r)"
    using assms(2) by simp
  moreover have "(w @ LF # b @ closing @ r) ! (length w + k) = (LF # b) ! k"
    using assms(2) by (cases k) (simp_all add: nth_append)
  ultimately show ?thesis
    by (simp add: after_open_def)
qed

lemma greedy_open_block:
  assumes "\<not> sublist closing b" and "n \<le> length b"
  shows "\<exists>k \<le> n. (LF # b) ! k = LF \<and>
           greedy_open (length w + n) (w @ LF # b @ closing @ r) = Some (drop k b)"
  using assms(2)
proof (induction n)
  case 0
  have "after_open (length w + 0) (w @ LF # b @ closing @ r) = Some (drop 0 b)"
    using after_open_block [OF assms(1), of 0 w r] by simp
  then have "greedy_open (length w) (w @ LF # b @ closing @ r) = Some b"
    by (cases "length w") simp_all
  then show ?case by simp
next
  case (Suc n)
  show ?case
  proof (cases "(LF # b) ! Suc n = LF")
    case True
    then have "after_open (length w + Suc n) (w @ LF # b @ closing @ r) =
        Some (drop (Suc n) b)"
      using after_open_block [OF assms(1) Suc.prems, of w r] by simp
    then have "greedy_open (length w + Suc n) (w @ LF # b @ closing @ r) =
        Some (drop (Suc n) b)"
      by simp
    with True show ?thesis by blast
  next
    case False
    then have "after_open (length w + Suc n) (w @ LF # b @ closing @ r) = None"
      using after_open_block [OF assms(1) Suc.prems, of w r] by simp
    then have "greedy_open (length w + Suc n) (w @ LF # b @ closing @ r) =
        greedy_open (length w + n) (w @ LF # b @ closing @ r)"
      by simp
    moreover from Suc obtain k where "k \<le> n" "(LF # b) ! k = LF"
      "greedy_open (length w + n) (w @ LF # b @ closing @ r) = Some (drop k b)"
      by auto
    ultimately show ?thesis
      by (auto intro!: exI [of _ k])
  qed
qed

lemma blank_prefix_length:
  assumes "\<forall>c \<in> set w. is_ws c" and "\<exists>c \<in> set b. \<not> is_ws c"
  shows "\<exists>n \<le> length b. length (takeWhile is_ws (w @ LF # b @ z)) = length w + n"
proof -
  have ws: "is_ws LF"
    by (simp add: is_ws_def LF_def)
  from assms(2) have tw: "takeWhile is_ws (b @ z) = takeWhile is_ws b"
    by (auto intro: takeWhile_append1)
  from assms(2) have "dropWhile is_ws b \<noteq> []"
    by simp
  then have "0 < length (dropWhile is_ws b)"
    by simp
  moreover have "length (takeWhile is_ws b) + length (dropWhile is_ws b) = length b"
    by (metis length_append takeWhile_dropWhile_id)
  ultimately have "Suc (length (takeWhile is_ws b)) \<le> length b"
    by linarith
  moreover have "length (takeWhile is_ws (w @ LF # b @ z)) =
      length w + Suc (length (takeWhile is_ws b))"
    using assms(1) ws tw by (simp add: takeWhile_append2)
  ultimately show ?thesis by blast
qed

lemma frontmatter_match_block:
  assumes "\<forall>c \<in> set w. is_ws c" and "\<exists>c \<in> set b. \<not> is_ws c" and "\<not> sublist closing b"
  shows "\<exists>x. frontmatter_match (js ''---'' @ w @ LF # b @ closing @ r) = Some x \<and>
           scan_lines (split_lines x) fm = scan_lines (split_lines b) fm"
proof -
  define rest where "rest = w @ LF # b @ closing @ r"
  from blank_prefix_length [OF assms(1,2), of "closing @ r"] obtain n
    where n: "n \<le> length b" and len: "length (takeWhile is_ws rest) = length w + n"
    unfolding rest_def by blast
  from greedy_open_block [OF assms(3) n, of w r] obtain k
    where k: "k \<le> n" and lf: "(LF # b) ! k = LF"
      and g: "greedy_open (length w + n) rest = Some (drop k b)"
    unfolding rest_def by blast
  have "drop 3 (js ''---'' @ rest) = rest"
    by (simp add: js_def)
  moreover have "prefix (js ''---'') (js ''---'' @ rest)"
    by simp
  ultimately have m: "frontmatter_match (js ''---'' @ rest) = Some (drop k b)"
    using g len by (simp add: frontmatter_match_def)
  have "scan_lines (split_lines (drop k b)) fm = scan_lines (split_lines b) fm"
  proof (cases k)
    case 0
    then show ?thesis by simp
  next
    case (Suc j)
    with k n have j: "j < length b" by simp
    from lf Suc have bj: "b ! j = LF"
      by simp
    have "length w + Suc j \<le> length (takeWhile is_ws rest)"
      using k Suc len by simp
    then have "\<forall>c \<in> set (take (length w + Suc j) rest). is_ws c"
      by (rule takeWhile_prefix_all)
    moreover have "take (length w + Suc j) rest = w @ LF # take j b"
      using j by (simp add: rest_def)
    ultimately have blank: "\<forall>c \<in> set (take j b). is_ws c"
      by simp
    have "take j b @ b ! j # drop (Suc j) b = b"
      using id_take_nth_drop [OF j] by (rule sym)
    then have "take j b @ LF # drop (Suc j) b = b"
      by (simp only: bj)
    then have "scan_lines (split_lines b) fm =
        scan_lines (split_lines (take j b @ LF # drop (Suc j) b)) fm"
      by (rule arg_cong [where f = "\<lambda>t. scan_lines (split_lines t) fm", symmetric])
    also have "\<dots> = scan_lines (split_lines (drop (Suc j) b)) fm"
      using blank by (rule scan_lines_blank_prefix)
    finally show ?thesis
      using Suc by simp
  qed
  with m show ?thesis
    unfolding rest_def by blast
qed

text \<open>
  C5, as stated, fails: the descriptor \<open>---\<close>, \<open>name: a\<close>, \<open>---x\<close> has no closing line
  that consists of three hyphens only, and the parser still reads the name from it.
\<close>

theorem parseSkillFrontmatter_no_hyphen_line_counterexample:
  "\<not> three_hyphen_delimited (js ''---'' @ LF # js ''name: a'' @ LF # js ''---x'') \<and>
   parseSkillFrontmatter (js ''---'' @ LF # js ''name: a'' @ LF # js ''---x'') =
     \<lparr>fm_name = js ''a'', fm_description = []\<rparr>"
  by (simp add: three_hyphen_delimited_def parseSkillFrontmatter_def frontmatter_match_def
      after_open_def closing_def key_value_def indexOf_def trim_def is_ws_def
      js_def LF_def colon_def)

text \<open>
  C5, amended. The parser returns a name and a description for every content and has
  no failing path. It reads them from a leading block that the expression
  \<open>^---\s*\n([\s\S]*?)\n---\<close> delimits: the opening line may carry trailing
  whitespace, and the closing line need only begin with three hyphens. Whatever it
  returns other than two empty strings is the \<open>name\<close> and \<open>description\<close> of the lines
  of some text that stands between such an opening and such a closing delimiter. A
  content that is not three hyphens, whitespace, a line feed, some text, and a line
  feed followed by three hyphens yields empty strings for both fields. When the
  content is three hyphens and whitespace, a line feed, then a block that is not
  blank, does not begin with three hyphens and has no line feed followed by three
  hyphens inside, then a line that begins with three hyphens, the name is the trimmed
  value of the last block line whose trimmed key is \<open>name\<close>, the description that of
  the last line whose key is \<open>description\<close>, and each is empty when there is no such
  line. What the parser reads when the first line that begins with three hyphens
  follows the opening one directly, or after blank lines only, is not stated here.
\<close>

theorem parseSkillFrontmatter_block:
  "(parseSkillFrontmatter content = \<lparr>fm_name = [], fm_description = []\<rparr> \<or>
    (\<exists>w b r. (\<forall>c \<in> set w. is_ws c) \<and> content = js ''---'' @ w @ LF # b @ closing @ r \<and>
       parseSkillFrontmatter content =
         \<lparr>fm_name = field_value (js ''name'') (split_lines b),
          fm_description = field_value (js ''description'') (split_lines b)\<rparr>)) \<and>
   ((\<nexists>w b r. (\<forall>c \<in> set w. is_ws c) \<and> content = js ''---'' @ w @ LF # b @ closing @ r) \<longrightarrow>
      parseSkillFrontmatter content = \<lparr>fm_name = [], fm_description = []\<rparr>) \<and>
   ((\<forall>c \<in> set trail. is_ws c) \<and> (\<exists>c \<in> set block. \<not> is_ws c) \<and>
    \<not> prefix (js ''---'') block \<and> \<not> sublist closing block \<longrightarrow>
      parseSkillFrontmatter (js ''---'' @ trail @ LF # block @ closing @ rest) =
        \<lparr>fm_name = field_value (js ''name'') (split_lines block),
         fm_description = field_value (js ''description'') (split_lines block)\<rparr>)"
proof (intro conjI impI)
  show "parseSkillFrontmatter content = \<lparr>fm_name = [], fm_description = []\<rparr> \<or>
    (\<exists>w b r. (\<forall>c \<in> set w. is_ws c) \<and> content = js ''---'' @ w @ LF # b @ closing @ r \<and>
       parseSkillFrontmatter content =
         \<lparr>fm_name = field_value (js ''name'') (split_lines b),
          fm_description = field_value (js ''description'') (split_lines b)\<rparr>)"
  proof (cases "frontmatter_match content")
    case None
    then show ?thesis
      by (simp add: parseSkillFrontmatter_def)
  next
    case (Some x)
    from frontmatter_match_sound [OF Some] obtain w r
      where "\<forall>c \<in> set w. is_ws c" and "content = js ''---'' @ w @ LF # x @ closing @ r"
      by blast
    moreover have "parseSkillFrontmatter content =
         \<lparr>fm_name = field_value (js ''name'') (split_lines x),
          fm_description = field_value (js ''description'') (split_lines x)\<rparr>"
      using Some by (simp add: parseSkillFrontmatter_def scan_lines_fields)
    ultimately show ?thesis
      by blast
  qed
next
  assume none: "\<nexists>w b r. (\<forall>c \<in> set w. is_ws c) \<and>
      content = js ''---'' @ w @ LF # b @ closing @ r"
  have "frontmatter_match content = None"
  proof (cases "frontmatter_match content")
    case None
    then show ?thesis .
  next
    case (Some x)
    from frontmatter_match_sound [OF Some] none show ?thesis by blast
  qed
  then show "parseSkillFrontmatter content = \<lparr>fm_name = [], fm_description = []\<rparr>"
    by (simp add: parseSkillFrontmatter_def)
next
  assume a: "(\<forall>c \<in> set trail. is_ws c) \<and> (\<exists>c \<in> set block. \<not> is_ws c) \<and>
    \<not> prefix (js ''---'') block \<and> \<not> sublist closing block"
  then obtain x
    where "frontmatter_match (js ''---'' @ trail @ LF # block @ closing @ rest) = Some x"
      and "scan_lines (split_lines x) \<lparr>fm_name = [], fm_description = []\<rparr> =
           scan_lines (split_lines block) \<lparr>fm_name = [], fm_description = []\<rparr>"
    using frontmatter_match_block
      [of trail block rest "\<lparr>fm_name = [], fm_description = []\<rparr>"]
    by blast
  then show "parseSkillFrontmatter (js ''---'' @ trail @ LF # block @ closing @ rest) =
        \<lparr>fm_name = field_value (js ''name'') (split_lines block),
         fm_description = field_value (js ''description'') (split_lines block)\<rparr>"
    by (simp add: parseSkillFrontmatter_def scan_lines_fields)
qed

theorem parseSkillFrontmatter_block_witness:
  "parseSkillFrontmatter (js ''# Lint skill'') = \<lparr>fm_name = [], fm_description = []\<rparr> \<and>
   parseSkillFrontmatter
     (js ''---'' @ js '' '' @ LF # (js ''name: Lint'' @ LF # js ''description: runs lint'' @ LF #
        js ''license: MIT'') @ closing @ (LF # js ''# Lint skill'')) =
     \<lparr>fm_name = js ''Lint'', fm_description = js ''runs lint''\<rparr>"
proof -
  let ?block = "js ''name: Lint'' @ LF # js ''description: runs lint'' @ LF # js ''license: MIT''"
  have none: "\<nexists>w b r. (\<forall>c \<in> set w. is_ws c) \<and>
      js ''# Lint skill'' = js ''---'' @ w @ LF # b @ closing @ r"
    by (simp add: js_def)
  have trail: "\<forall>c \<in> set (js '' ''). is_ws c"
    by (simp add: js_def is_ws_def)
  have ink: "\<exists>c \<in> set ?block. \<not> is_ws c"
    by (simp add: js_def is_ws_def LF_def)
  have first_line: "\<not> prefix (js ''---'') ?block"
    by (simp add: js_def)
  have open_block: "\<not> sublist closing ?block"
    by (simp add: sublist_code closing_def js_def LF_def)
  have name: "field_value (js ''name'') (split_lines ?block) = js ''Lint''"
    by (simp add: field_value_def List.map_filter_simps key_value_def indexOf_def trim_def
        is_ws_def js_def LF_def colon_def)
  have description: "field_value (js ''description'') (split_lines ?block) = js ''runs lint''"
    by (simp add: field_value_def List.map_filter_simps key_value_def indexOf_def trim_def
        is_ws_def js_def LF_def colon_def)
  show ?thesis
    using none trail ink first_line open_block name description
      parseSkillFrontmatter_block
        [of "js ''# Lint skill''" "js '' ''" ?block "LF # js ''# Lint skill''"]
    by simp
qed

section \<open>Properties of the skill listing\<close>

lemma scan_registry_map_filter:
  "scan_registry fs dir entries available =
     available @
     List.map_filter
       (\<lambda>entry.
          if ent_isDirectory entry \<and> existsSync fs (dir @ [ent_name entry, js ''SKILL.md''])
          then map_option
                 (\<lambda>content.
                    \<lparr>sk_name = ent_name entry,
                     sk_displayName =
                       (if fm_name (parseSkillFrontmatter content) = [] then ent_name entry
                        else fm_name (parseSkillFrontmatter content)),
                     sk_description = fm_description (parseSkillFrontmatter content)\<rparr>)
                 (readFileSync fs (dir @ [ent_name entry, js ''SKILL.md'']))
          else None)
       entries"
proof (induction entries arbitrary: available)
  case Nil
  then show ?case by (simp add: List.map_filter_simps)
next
  case (Cons entry entries)
  show ?case
  proof (cases "ent_isDirectory entry \<and> existsSync fs (dir @ [ent_name entry, js ''SKILL.md''])")
    case False
    then show ?thesis
      by (auto simp add: Cons.IH List.map_filter_simps Let_def)
  next
    case True
    then show ?thesis
      by (cases "readFileSync fs (dir @ [ent_name entry, js ''SKILL.md''])")
        (simp_all add: Cons.IH List.map_filter_simps Let_def)
  qed
qed

text \<open>
  C6. The listing goes through the top-level entries of the registry directory in
  order and never raises. It is empty when the directory does not exist or cannot be
  read. An entry that is not a directory, a directory with no \<open>SKILL.md\<close>, and a
  directory whose \<open>SKILL.md\<close> cannot be read are skipped. Every other entry gives one
  record: its name is the directory name, its display name the parsed name, or the
  directory name when that is empty, and its description the parsed description (the
  empty string when there is none).
\<close>

theorem available_skills_listing:
  "available_skills fs homedir =
     (if existsSync fs (homedir @ [js ''.dawg'', js ''skills''])
      then (case readdirSync fs (homedir @ [js ''.dawg'', js ''skills'']) of
              None \<Rightarrow> []
            | Some entries \<Rightarrow>
                List.map_filter
                  (\<lambda>entry.
                     if ent_isDirectory entry \<and>
                        existsSync fs
                          (homedir @ [js ''.dawg'', js ''skills'', ent_name entry, js ''SKILL.md''])
                     then map_option
                            (\<lambda>content.
                               \<lparr>sk_name = ent_name entry,
                                sk_displayName =
                                  (if fm_name (parseSkillFrontmatter content) = []
                                   then ent_name entry
                                   else fm_name (parseSkillFrontmatter content)),
                                sk_description =
                                  fm_description (parseSkillFrontmatter content)\<rparr>)
                            (readFileSync fs
                               (homedir @
                                [js ''.dawg'', js ''skills'', ent_name entry, js ''SKILL.md'']))
                     else None)
                  entries)
      else [])"
  by (simp add: available_skills_def scan_registry_map_filter Let_def split: option.splits cong: if_cong)

theorem available_skills_listing_witness:
  "available_skills
     \<lparr>existsSync = (\<lambda>p. p = [js ''home'', js ''.dawg'', js ''skills''] \<or>
          p = [js ''home'', js ''.dawg'', js ''skills'', js ''lint'', js ''SKILL.md''] \<or>
          p = [js ''home'', js ''.dawg'', js ''skills'', js ''locked'', js ''SKILL.md'']),
      readdirSync = (\<lambda>p. if p = [js ''home'', js ''.dawg'', js ''skills'']
          then Some [\<lparr>ent_name = js ''notes.txt'', ent_isDirectory = False\<rparr>,
                     \<lparr>ent_name = js ''lint'', ent_isDirectory = True\<rparr>,
                     \<lparr>ent_name = js ''draft'', ent_isDirectory = True\<rparr>,
                     \<lparr>ent_name = js ''locked'', ent_isDirectory = True\<rparr>]
          else None),
      readFileSync = (\<lambda>p.
          if p = [js ''home'', js ''.dawg'', js ''skills'', js ''lint'', js ''SKILL.md'']
          then Some (js ''---'' @ LF # js ''description: runs lint'' @ LF # js ''---'')
          else None)\<rparr>
     [js ''home''] =
   [\<lparr>sk_name = js ''lint'', sk_displayName = js ''lint'',
     sk_description = js ''runs lint''\<rparr>]"
proof -
  let ?fs = "\<lparr>existsSync = (\<lambda>p. p = [js ''home'', js ''.dawg'', js ''skills''] \<or>
          p = [js ''home'', js ''.dawg'', js ''skills'', js ''lint'', js ''SKILL.md''] \<or>
          p = [js ''home'', js ''.dawg'', js ''skills'', js ''locked'', js ''SKILL.md'']),
      readdirSync = (\<lambda>p. if p = [js ''home'', js ''.dawg'', js ''skills'']
          then Some [\<lparr>ent_name = js ''notes.txt'', ent_isDirectory = False\<rparr>,
                     \<lparr>ent_name = js ''lint'', ent_isDirectory = True\<rparr>,
                     \<lparr>ent_name = js ''draft'', ent_isDirectory = True\<rparr>,
                     \<lparr>ent_name = js ''locked'', ent_isDirectory = True\<rparr>]
          else None),
      readFileSync = (\<lambda>p.
          if p = [js ''home'', js ''.dawg'', js ''skills'', js ''lint'', js ''SKILL.md'']
          then Some (js ''---'' @ LF # js ''description: runs lint'' @ LF # js ''---'')
          else None)\<rparr>"
  have parsed: "parseSkillFrontmatter
      (js ''---'' @ LF # js ''description: runs lint'' @ LF # js ''---'') =
      \<lparr>fm_name = [], fm_description = js ''runs lint''\<rparr>"
    by (simp add: parseSkillFrontmatter_def frontmatter_match_def after_open_def closing_def
        key_value_def indexOf_def trim_def is_ws_def js_def LF_def colon_def)
  have names: "js ''lint'' \<noteq> js ''draft''" "js ''lint'' \<noteq> js ''locked''"
    "js ''draft'' \<noteq> js ''locked''" "js ''draft'' \<noteq> js ''lint''"
    "js ''locked'' \<noteq> js ''lint''"
    by (simp_all add: js_def)
  show ?thesis
    using parsed names available_skills_listing [of ?fs "[js ''home'']"]
    by (simp add: List.map_filter_simps)
qed

end
